theory Spec2Isabelle
  imports Main "HOL-Library.Char_ord" "HOL-Library.List_Lexorder"
begin

section \<open>Python strings\<close>

text \<open>
  A Python \<^verbatim>\<open>str\<close> is modelled as a \<^typ>\<open>string\<close>. The character classes and
  the case mapping below are those of the ASCII range: the bot's commands, keywords and
  the examples of its specification are ASCII, and on that range Python's Unicode
  predicates coincide with the tables written here. Bytes above 127 (the emoji of the
  bot's replies, written in UTF-8) are neither letters nor digits in this model.
\<close>

definition ascii_uppercase :: string where
  "ascii_uppercase = ''ABCDEFGHIJKLMNOPQRSTUVWXYZ''"

definition ascii_lowercase :: string where
  "ascii_lowercase = ''abcdefghijklmnopqrstuvwxyz''"

definition ascii_digits :: string where
  "ascii_digits = ''0123456789''"

definition sq :: char where
  "sq = CHR 0x27"

definition backslash :: char where
  "backslash = CHR 0x5C"

definition newline :: char where
  "newline = CHR 0x0A"

definition lower_char :: "char \<Rightarrow> char" where
  "lower_char c = (case map_of (zip ascii_uppercase ascii_lowercase) c of Some d \<Rightarrow> d | None \<Rightarrow> c)"

definition upper_char :: "char \<Rightarrow> char" where
  "upper_char c = (case map_of (zip ascii_lowercase ascii_uppercase) c of Some d \<Rightarrow> d | None \<Rightarrow> c)"

definition py_lower :: "string \<Rightarrow> string" where
  "py_lower s = map lower_char s"

definition is_space :: "char \<Rightarrow> bool" where
  "is_space c = (c \<in> set [CHR 0x20, CHR 0x09, CHR 0x0A, CHR 0x0B, CHR 0x0C, CHR 0x0D,
                           CHR 0x1C, CHR 0x1D, CHR 0x1E, CHR 0x1F])"

definition py_strip :: "string \<Rightarrow> string" where
  "py_strip s = rev (dropWhile is_space (rev (dropWhile is_space s)))"

fun py_join :: "string \<Rightarrow> string list \<Rightarrow> string" where
  "py_join sep [] = []"
| "py_join sep [x] = x"
| "py_join sep (x # y # ys) = x @ sep @ py_join sep (y # ys)"

definition startswith :: "string \<Rightarrow> string \<Rightarrow> bool" where
  "startswith s p = (take (length p) s = p)"

definition py_capitalize :: "string \<Rightarrow> string" where
  "py_capitalize s = (case s of [] \<Rightarrow> [] | c # cs \<Rightarrow> upper_char c # map lower_char cs)"

text \<open>\<^verbatim>\<open>str(n)\<close> for an integer: decimal digits, a minus sign for a negative one.\<close>

fun str_nat :: "nat \<Rightarrow> string" where
  "str_nat n = (if n < 10 then [ascii_digits ! n]
                else str_nat (n div 10) @ [ascii_digits ! (n mod 10)])"

declare str_nat.simps [simp del]

definition str_int :: "int \<Rightarrow> string" where
  "str_int i = (if i < 0 then CHR ''-'' # str_nat (nat (- i)) else str_nat (nat i))"

text \<open>
  \<^verbatim>\<open>s.isdigit()\<close> and \<^verbatim>\<open>int(s)\<close> on a string of decimal digits. On ASCII text
  \<^verbatim>\<open>int\<close> cannot fail once \<^verbatim>\<open>isdigit\<close> holds.
\<close>

definition py_isdigit :: "string \<Rightarrow> bool" where
  "py_isdigit s = (s \<noteq> [] \<and> list_all (\<lambda>c. c \<in> set ascii_digits) s)"

definition digit_value :: "char \<Rightarrow> int" where
  "digit_value c = (case map_of (zip ascii_digits [0, 1, 2, 3, 4, 5, 6, 7, 8, 9]) c of
                      Some v \<Rightarrow> v | None \<Rightarrow> 0)"

definition py_int :: "string \<Rightarrow> int" where
  "py_int s = foldl (\<lambda>a c. 10 * a + digit_value c) 0 s"

section \<open>The regular expressions of the notification matcher\<close>

text \<open>
  \<^verbatim>\<open>re.escape\<close> puts a backslash before each character of its table of special
  characters and leaves every other character as it is.
\<close>

definition special_chars :: string where
  "special_chars = ''()[]{}?*+-|^$'' @ [backslash] @ ''.&~# '' @
                   [CHR 0x09, CHR 0x0A, CHR 0x0D, CHR 0x0B, CHR 0x0C]"

definition re_escape :: "string \<Rightarrow> string" where
  "re_escape pattern = concat (map (\<lambda>c. if c \<in> set special_chars then [backslash, c] else [c]) pattern)"

text \<open>
  The fragment of the pattern language that the matcher's patterns are written in: the
  word-boundary assertion \<^verbatim>\<open>\b\<close>, a backslash before a character that is neither a
  letter nor a digit (that character, literally), and a character that is no operator
  (itself, literally). The parser answers \<open>None\<close> on anything else: a dangling
  backslash or an unknown letter escape (where Python raises \<^verbatim>\<open>re.error\<close>), and the
  operators and classes that this development does not interpret.
\<close>

datatype re_item = AT_BOUNDARY | LITERAL char

definition operator_chars :: string where
  "operator_chars = ''.[{()*+?^$|''"

definition is_alnum :: "char \<Rightarrow> bool" where
  "is_alnum c = (c \<in> set (ascii_lowercase @ ascii_uppercase @ ascii_digits))"

fun sre_parse :: "string \<Rightarrow> re_item list option" where
  "sre_parse [] = Some []"
| "sre_parse [c] =
     (if c = backslash \<or> c \<in> set operator_chars then None else Some [LITERAL c])"
| "sre_parse (c # d # ds) =
     (if c = backslash then
        (if d = CHR ''b'' then map_option ((#) AT_BOUNDARY) (sre_parse ds)
         else if is_alnum d then None
         else map_option ((#) (LITERAL d)) (sre_parse ds))
      else if c \<in> set operator_chars then None
      else map_option ((#) (LITERAL c)) (sre_parse (d # ds)))"

text \<open>
  Matching under \<^verbatim>\<open>re.IGNORECASE\<close>. The position in the subject is the character
  before it (if any) and the text from it on. \<^verbatim>\<open>\w\<close> is a letter, a digit or the
  underscore; \<^verbatim>\<open>\b\<close> holds where exactly one of the two neighbours is a word
  character, the ends of the subject counting as non-word.
\<close>

definition is_word :: "char \<Rightarrow> bool" where
  "is_word c = (is_alnum c \<or> c = CHR ''_'')"

definition word_before :: "char option \<Rightarrow> bool" where
  "word_before p = (case p of None \<Rightarrow> False | Some c \<Rightarrow> is_word c)"

definition word_here :: "string \<Rightarrow> bool" where
  "word_here s = (case s of [] \<Rightarrow> False | c # cs \<Rightarrow> is_word c)"

fun sre_match :: "re_item list \<Rightarrow> char option \<Rightarrow> string \<Rightarrow> bool" where
  "sre_match [] prev s = True"
| "sre_match (AT_BOUNDARY # its) prev s = (word_before prev \<noteq> word_here s \<and> sre_match its prev s)"
| "sre_match (LITERAL c # its) prev [] = False"
| "sre_match (LITERAL c # its) prev (d # s) = (lower_char d = lower_char c \<and> sre_match its (Some d) s)"

text \<open>\<^verbatim>\<open>re.search\<close> tries every start position from the left.\<close>

fun sre_search :: "re_item list \<Rightarrow> char option \<Rightarrow> string \<Rightarrow> bool" where
  "sre_search its prev [] = sre_match its prev []"
| "sre_search its prev (d # s) = (sre_match its prev (d # s) \<or> sre_search its (Some d) s)"

definition re_search :: "string \<Rightarrow> string \<Rightarrow> bool option" where
  "re_search pattern s = map_option (\<lambda>its. sre_search its None s) (sre_parse pattern)"

text \<open>
  The pattern of the matcher, \<^verbatim>\<open>r'\b{}\b'.format(re.escape(keyword))\<close>.
\<close>

definition keyword_pattern :: "string \<Rightarrow> string" where
  "keyword_pattern keyword = [backslash, CHR ''b''] @ re_escape keyword @ [backslash, CHR ''b'']"

section \<open>The store\<close>

text \<open>
  The two tables of \<^verbatim>\<open>memory.db\<close>, each a list of rows in rowid order, with the
  counter that \<^verbatim>\<open>AUTOINCREMENT\<close> keeps for it. The handlers open the file under two
  spellings of its path (\<^verbatim>\<open>DB_PATH\<close> and the relative \<^verbatim>\<open>"memory.db"\<close>); they name
  one file when the bot is started from its own directory, and one \<open>store\<close> value
  stands for that file. A timestamp is the text that \<^verbatim>\<open>CURRENT_TIMESTAMP\<close> yields
  (\<^verbatim>\<open>YYYY-MM-DD HH:MM:SS\<close>), compared as text.
\<close>

record interaction =
  i_id :: nat
  i_chat_id :: string
  i_input_topic :: string
  i_news_data :: string
  i_summary :: string
  i_timestamp :: string

record alert =
  a_id :: nat
  a_chat_id :: string
  a_keyword :: string

record store =
  interactions :: "interaction list"
  interactions_seq :: nat
  alerts :: "alert list"
  alerts_seq :: nat

text \<open>\<^verbatim>\<open>init_db\<close> and \<^verbatim>\<open>init_alerts_db\<close> on a fresh file: two empty tables.\<close>

definition init_db :: store where
  "init_db = \<lparr>interactions = [], interactions_seq = 0, alerts = [], alerts_seq = 0\<rparr>"

datatype py_error = ReError | OverflowError

record message =
  m_chat_id :: string
  m_text :: string
  m_parse_mode :: "string option"

text \<open>
  The recipient of a message is written as text: the decimal rendering of a chat's
  integer id, or the channel id of the configuration, which is text already.
\<close>

definition send_message :: "string \<Rightarrow> string \<Rightarrow> message" where
  "send_message chat text = \<lparr>m_chat_id = chat, m_text = text, m_parse_mode = None\<rparr>"

subsection \<open>The query operators used by the handlers\<close>

text \<open>
  \<^verbatim>\<open>SELECT DISTINCT\<close> without an \<^verbatim>\<open>ORDER BY\<close>: the scan emits a row the first time it
  meets it.
\<close>

fun sql_distinct :: "'a list \<Rightarrow> 'a list" where
  "sql_distinct [] = []"
| "sql_distinct (r # rows) = r # sql_distinct (filter (\<lambda>x. x \<noteq> r) rows)"

text \<open>
  \<^verbatim>\<open>ORDER BY key DESC\<close> in front of a \<^verbatim>\<open>LIMIT\<close>: SQL leaves the order of rows with equal
  keys open; SQLite keeps them in the order of the scan, which is what this sort does.
\<close>

definition order_by_desc :: "('a \<Rightarrow> 'k::linorder) \<Rightarrow> 'a list \<Rightarrow> 'a list" where
  "order_by_desc key rows = rev (sort_key key (rev rows))"

text \<open>\<^verbatim>\<open>LIMIT n\<close>: a negative \<open>n\<close> means no limit.\<close>

definition sql_limit :: "int \<Rightarrow> 'a list \<Rightarrow> 'a list" where
  "sql_limit n rows = (if n < 0 then rows else take (nat n) rows)"

text \<open>
  \<^verbatim>\<open>GROUP BY input_topic\<close> with \<^verbatim>\<open>COUNT(*)\<close>: one row per topic with the number of
  its rows; SQLite emits the groups in ascending order of the grouping key.
\<close>

definition group_count :: "string list \<Rightarrow> (string \<times> nat) list" where
  "group_count topics = map (\<lambda>t. (t, count_list topics t)) (sort (remdups topics))"

text \<open>
  \<^verbatim>\<open>DELETE ... WHERE\<close>: the rows that stay, and the cursor's \<^verbatim>\<open>rowcount\<close>.
\<close>

fun sql_delete :: "('a \<Rightarrow> bool) \<Rightarrow> 'a list \<Rightarrow> 'a list \<times> nat" where
  "sql_delete p [] = ([], 0)"
| "sql_delete p (r # rows) =
     (let (kept, n) = sql_delete p rows in if p r then (kept, Suc n) else (r # kept, n))"

subsection \<open>Interaction records\<close>

text \<open>
  \<^verbatim>\<open>log_interaction\<close>: the one \<^verbatim>\<open>INSERT\<close> into \<^verbatim>\<open>interactions\<close>. The store assigns the
  id and, from its clock, the timestamp.
\<close>

definition log_interaction :: "store \<Rightarrow> string \<Rightarrow> int \<Rightarrow> string \<Rightarrow> string \<Rightarrow> string \<Rightarrow> store" where
  "log_interaction db now chat_id input_topic news_data summary =
     db\<lparr>interactions := interactions db @
            [\<lparr>i_id = Suc (interactions_seq db), i_chat_id = str_int chat_id,
              i_input_topic = input_topic, i_news_data = news_data, i_summary = summary,
              i_timestamp = now\<rparr>],
        interactions_seq := Suc (interactions_seq db)\<rparr>"

definition chat_rows :: "store \<Rightarrow> string \<Rightarrow> interaction list" where
  "chat_rows db chat = filter (\<lambda>r. i_chat_id r = chat) (interactions db)"

text \<open>
  The query of \<^verbatim>\<open>history_command\<close>. It selects three columns; the rows are kept whole
  here so that their keys can be spoken about.
\<close>

definition select_recent :: "store \<Rightarrow> string \<Rightarrow> int \<Rightarrow> interaction list" where
  "select_recent db chat n = sql_limit n (order_by_desc i_timestamp (chat_rows db chat))"

text \<open>
  The aggregation shared by \<^verbatim>\<open>mytopics_command\<close>, \<^verbatim>\<open>trending_command\<close> and
  \<^verbatim>\<open>discover_command\<close>, which differ in the rows they aggregate and in the limit.
\<close>

definition select_topic_frequency :: "interaction list \<Rightarrow> int \<Rightarrow> (string \<times> nat) list" where
  "select_topic_frequency rows top_n =
     sql_limit top_n (order_by_desc snd (group_count (map i_input_topic rows)))"

section \<open>The notification matcher\<close>

definition bell :: string where
  "bell = [CHR 0xF0, CHR 0x9F, CHR 0x94, CHR 0x94]"

definition alert_message :: "string \<times> string \<Rightarrow> message" where
  "alert_message n =
     send_message (fst n)
       (bell @ '' ALERT: The keyword '' @ [sq] @ snd n @ [sq] @ '' appears in the latest news!'')"

text \<open>
  The loop of \<^verbatim>\<open>notify_alerts\<close> over the fetched rows. It yields the pairs for which
  the message is sent, in the order of sending; \<open>Inl ReError\<close> is the exception of a
  pattern that does not compile.
\<close>

fun notify_scan :: "(string \<times> string) list \<Rightarrow> string \<Rightarrow> string set \<Rightarrow>
                    py_error + (string \<times> string) list" where
  "notify_scan [] news_data already_notified = Inr []"
| "notify_scan ((chat_id, keyword) # rows) news_data already_notified =
     (case re_search (keyword_pattern keyword) news_data of
        None \<Rightarrow> Inl ReError
      | Some found \<Rightarrow>
          if found \<and> chat_id \<notin> already_notified
          then (case notify_scan rows news_data (insert chat_id already_notified) of
                  Inl e \<Rightarrow> Inl e
                | Inr sent \<Rightarrow> Inr ((chat_id, keyword) # sent))
          else notify_scan rows news_data already_notified)"

definition subscriptions :: "store \<Rightarrow> (string \<times> string) list" where
  "subscriptions db = map (\<lambda>a. (a_chat_id a, a_keyword a)) (alerts db)"

definition notify_alerts :: "store \<Rightarrow> string \<Rightarrow> py_error + message list" where
  "notify_alerts db news_data =
     (case notify_scan (sql_distinct (subscriptions db)) news_data {} of
        Inl e \<Rightarrow> Inl e
      | Inr sent \<Rightarrow> Inr (map alert_message sent))"

section \<open>The handlers\<close>

text \<open>
  What a handler reads from outside the store: the two collaborators, each a function
  from its argument to the text it answers on this call; the transport library's
  Markdown escaping; the channel id of the configuration; and the clock that stamps an
  insert. Sending a message succeeds; a handler's result lists the messages it sends,
  in order.
\<close>

record world =
  get_news :: "string \<Rightarrow> string"
  summarize_with_ai :: "string \<Rightarrow> string"
  escape_markdown :: "string \<Rightarrow> string"
  CHANNEL_ID :: string
  CURRENT_TIMESTAMP :: string

definition magnifier :: string where
  "magnifier = [CHR 0xF0, CHR 0x9F, CHR 0x94, CHR 0x8D]"

definition party :: string where
  "party = [CHR 0xF0, CHR 0x9F, CHR 0x8E, CHR 0x89]"

definition fire :: string where
  "fire = [CHR 0xF0, CHR 0x9F, CHR 0x94, CHR 0xA5]"

subsection \<open>news\<close>

text \<open>
  \<^verbatim>\<open>input_topic = " ".join(context.args).lower().strip() or "India"\<close> and
  \<^verbatim>\<open>display_topic\<close>, the first two assignments of the handler, and the message it
  sends before it fetches.
\<close>

definition news_input_topic :: "string list \<Rightarrow> string" where
  "news_input_topic args =
     (let joined = py_strip (py_lower (py_join '' '' args))
      in if joined = [] then ''India'' else joined)"

definition news_display_topic :: "string \<Rightarrow> string" where
  "news_display_topic input_topic =
     (if input_topic = ''top'' then ''Top Headlines'' else py_capitalize input_topic)"

definition searching_message :: "string \<Rightarrow> string \<Rightarrow> message" where
  "searching_message chat display_topic =
     (send_message chat
        (magnifier @ '' Searching GNews and summarizing news for *'' @ display_topic @ ''*...''))
       \<lparr>m_parse_mode := Some ''Markdown''\<rparr>"

definition news_command :: "world \<Rightarrow> store \<Rightarrow> int \<Rightarrow> string list \<Rightarrow>
                             py_error + store \<times> message list" where
  "news_command w db chat_id args =
     (let input_topic = news_input_topic args;
          display_topic = news_display_topic input_topic;
          searching = searching_message (str_int chat_id) display_topic;
          news_data = get_news w input_topic
      in case notify_alerts db news_data of
           Inl e \<Rightarrow> Inl e
         | Inr alerted \<Rightarrow>
             if startswith news_data ''Error:'' \<or> startswith news_data ''No news''
             then Inr (db, searching # alerted @ [send_message (str_int chat_id) news_data])
             else
               let summary = summarize_with_ai w news_data in
               if startswith summary ''AI summarization failed:'' \<or>
                  startswith summary ''Gemini AI API error:''
               then Inr (db, searching # alerted @ [send_message (str_int chat_id) summary])
               else
                 let summary_safe = escape_markdown w summary;
                     display_safe = escape_markdown w display_topic;
                     digest = ''AI News Digest: *'' @ display_safe @ ''*'' @
                              [newline, newline] @ summary_safe;
                     final_digest = (if length digest > 4000 then take 3990 digest @ ''...''
                                     else digest);
                     reply = (send_message (str_int chat_id) final_digest)
                               \<lparr>m_parse_mode := Some ''MarkdownV2''\<rparr>;
                     broadcast = (if CHANNEL_ID w \<noteq> [] \<and> startswith (CHANNEL_ID w) ''-100''
                                  then [(send_message (CHANNEL_ID w) final_digest)
                                          \<lparr>m_parse_mode := Some ''MarkdownV2''\<rparr>]
                                  else [])
                 in Inr (log_interaction db (CURRENT_TIMESTAMP w) chat_id input_topic news_data summary,
                         searching # alerted @ [reply] @ broadcast))"

subsection \<open>history\<close>

definition history_limit :: "string list \<Rightarrow> int" where
  "history_limit args = (case args of [] \<Rightarrow> 3 | a # rest \<Rightarrow> if py_isdigit a then py_int a else 3)"

definition history_line :: "nat \<times> interaction \<Rightarrow> string" where
  "history_line ir =
     str_nat (fst ir) @ ''. ['' @ i_timestamp (snd ir) @ ''] Topic: '' @ i_input_topic (snd ir) @
     [newline] @ ''   Summary: '' @ take 120 (i_summary (snd ir)) @ ''...''"

text \<open>
  SQLite binds a 64-bit integer: a larger \<open>n\<close> makes \<^verbatim>\<open>execute\<close> raise
  \<^verbatim>\<open>OverflowError\<close>, which the handler does not catch.
\<close>

definition history_command :: "store \<Rightarrow> int \<Rightarrow> string list \<Rightarrow> py_error + message list" where
  "history_command db chat_id args =
     (let n = history_limit args in
      if n > 2 ^ 63 - 1 then Inl OverflowError
      else
        let rows = select_recent db (str_int chat_id) n in
        if rows = []
        then Inr [send_message (str_int chat_id) ''No history found yet. Try /news <topic>!'']
        else Inr [(send_message (str_int chat_id)
                     (py_join [newline, newline]
                        ((''Your last '' @ str_int n @ '' news requests:'') #
                         map history_line (zip [1 ..< Suc (length rows)] rows))))
                    \<lparr>m_parse_mode := Some ''Markdown''\<rparr>])"

subsection \<open>mytopics\<close>

definition topic_frequency :: "store \<Rightarrow> string \<Rightarrow> int \<Rightarrow> (string \<times> nat) list" where
  "topic_frequency db chat top_n = select_topic_frequency (chat_rows db chat) top_n"

definition mytopics_command :: "store \<Rightarrow> int \<Rightarrow> message list" where
  "mytopics_command db chat_id =
     (let rows = topic_frequency db (str_int chat_id) 5 in
      if rows = []
      then [send_message (str_int chat_id)
              ''No topics found yet! Try /news <topic> to start building your news profile.'']
      else [send_message (str_int chat_id)
              (py_join [newline]
                 (''Your top requested news topics:'' #
                  map (\<lambda>(i, topic, count). str_nat i @ ''. '' @ topic @ '' ('' @ str_nat count @ '' times)'')
                      (zip [1 ..< Suc (length rows)] rows)))])"

subsection \<open>discover\<close>

text \<open>
  The handler works with Python sets and lists their difference; \<open>list_of\<close> is the
  order in which Python iterates over a set, which the language leaves open.
\<close>

definition global_topic_frequency :: "store \<Rightarrow> int \<Rightarrow> (string \<times> nat) list" where
  "global_topic_frequency db top_n = select_topic_frequency (interactions db) top_n"

definition distinct_topics :: "store \<Rightarrow> string \<Rightarrow> string list" where
  "distinct_topics db chat = sql_distinct (map i_input_topic (chat_rows db chat))"

definition explored_all_text :: string where
  "explored_all_text =
     party @ '' You'' @ [sq] @ ''ve already explored all top trending topics! Try /news to find more.''"

definition discover_unexplored :: "(string set \<Rightarrow> string list) \<Rightarrow> store \<Rightarrow> string \<Rightarrow> string list" where
  "discover_unexplored list_of db chat =
     (let trending = set (map fst (global_topic_frequency db 10));
          personal = set (distinct_topics db chat)
      in list_of (trending - personal))"

definition discover_text :: "string list \<Rightarrow> string" where
  "discover_text unexplored =
     (if unexplored = [] then explored_all_text
      else py_join [newline]
             ((fire @ '' Trending topics you haven'' @ [sq] @ ''t explored yet:'') #
              map (\<lambda>(i, topic). str_nat i @ ''. '' @ topic) (zip [1 ..< Suc (length unexplored)] unexplored) @
              [''Try /news <topic> to read about these!'']))"

definition discover_command :: "(string set \<Rightarrow> string list) \<Rightarrow> store \<Rightarrow> int \<Rightarrow> message list" where
  "discover_command list_of db chat_id =
     [send_message (str_int chat_id) (discover_text (discover_unexplored list_of db (str_int chat_id)))]"

subsection \<open>alert and removealert\<close>

definition insert_alert :: "store \<Rightarrow> string \<Rightarrow> string \<Rightarrow> store" where
  "insert_alert db chat keyword =
     db\<lparr>alerts := alerts db @ [\<lparr>a_id = Suc (alerts_seq db), a_chat_id = chat, a_keyword = keyword\<rparr>],
        alerts_seq := Suc (alerts_seq db)\<rparr>"

definition alert_command :: "store \<Rightarrow> int \<Rightarrow> string list \<Rightarrow> store \<times> message list" where
  "alert_command db chat_id args =
     (if args = []
      then (db, [send_message (str_int chat_id)
                   ''Please provide a keyword to subscribe to alerts (e.g., /alert AI)''])
      else
        let keyword = py_lower (py_strip (py_join '' '' args)) in
        (insert_alert db (str_int chat_id) keyword,
         [send_message (str_int chat_id)
            (''Alert set! You'' @ [sq] @ ''ll be notified when '' @ [sq] @ keyword @ [sq] @
             '' appears in future news.'')]))"

definition delete_alerts :: "store \<Rightarrow> string \<Rightarrow> string \<Rightarrow> store \<times> nat" where
  "delete_alerts db chat keyword =
     (let (kept, removed) = sql_delete (\<lambda>a. a_chat_id a = chat \<and> a_keyword a = keyword) (alerts db)
      in (db\<lparr>alerts := kept\<rparr>, removed))"

definition removed_text :: "string \<Rightarrow> string" where
  "removed_text keyword = ''Removed alert for '' @ [sq] @ keyword @ [sq] @ ''.''"

definition not_found_text :: "string \<Rightarrow> string" where
  "not_found_text keyword = ''No alert found for '' @ [sq] @ keyword @ [sq] @ ''.''"

definition removealert_command :: "store \<Rightarrow> int \<Rightarrow> string list \<Rightarrow> store \<times> message list" where
  "removealert_command db chat_id args =
     (if args = []
      then (db, [send_message (str_int chat_id)
                   ''Specify the keyword to remove: /removealert <keyword>''])
      else
        let keyword = py_lower (py_strip (py_join '' '' args));
            (db', removed) = delete_alerts db (str_int chat_id) keyword
        in if removed \<noteq> 0
           then (db', [send_message (str_int chat_id) (removed_text keyword)])
           else (db', [send_message (str_int chat_id) (not_found_text keyword)]))"

section \<open>Notions used in the statements\<close>

subsection \<open>Whole-word occurrence, as the specification words it\<close>

text \<open>
  The keyword, read as a literal string, occurs in the text as a whole word when some
  stretch of the text equals it up to letter case and a word boundary stands at both
  ends of that stretch.
\<close>

definition word_at :: "string \<Rightarrow> nat \<Rightarrow> bool" where
  "word_at t i = (i < length t \<and> is_word (t ! i))"

definition boundary_at :: "string \<Rightarrow> nat \<Rightarrow> bool" where
  "boundary_at t i = ((0 < i \<and> word_at t (i - 1)) \<noteq> word_at t i)"

definition occurs_as_whole_word :: "string \<Rightarrow> string \<Rightarrow> bool" where
  "occurs_as_whole_word k t =
     list_ex (\<lambda>i. py_lower (take (length k) (drop i t)) = py_lower k \<and>
                  boundary_at t i \<and> boundary_at t (i + length k))
             [0 ..< Suc (length t) - length k]"


text \<open>The character before a position, given the text that precedes it.\<close>

definition prev_of :: "string \<Rightarrow> char option" where
  "prev_of pre = (if pre = [] then None else Some (last pre))"

subsection \<open>The interaction table\<close>



text \<open>
  What \<^verbatim>\<open>AUTOINCREMENT\<close> maintains: the keys of the interaction table grow along the
  table and none exceeds the counter.
\<close>

definition ids_ascending :: "store \<Rightarrow> bool" where
  "ids_ascending db =
     (sorted_wrt (\<lambda>a b. i_id a < i_id b) (interactions db) \<and>
      list_all (\<lambda>r. i_id r \<le> interactions_seq db) (interactions db))"


subsection \<open>The subscription table\<close>

text \<open>A subscription row that matches both fields of an unsubscribe request.\<close>

definition alert_matches :: "string \<Rightarrow> string \<Rightarrow> alert \<Rightarrow> bool" where
  "alert_matches chat kw a = (a_chat_id a = chat \<and> a_keyword a = kw)"

section \<open>Sample stores and worlds\<close>

definition one_alert :: store where
  "one_alert = fst (alert_command init_db 7 [''AI''])"


definition cricket_alert :: store where
  "cricket_alert = fst (alert_command init_db 7 [''cricket''])"

definition same_second :: store where
  "same_second =
     log_interaction
       (log_interaction init_db ''2024-05-01 10:00:00'' 42 ''india'' ''headlines 1'' ''digest 1'')
       ''2024-05-01 10:00:00'' 42 ''sports'' ''headlines 2'' ''digest 2''"



definition one_topic :: store where
  "one_topic = log_interaction init_db ''2024-05-01 10:00:00'' 1 ''ai'' ''headlines'' ''digest''"

text \<open>
  A world in which the fetch finds nothing (with the text that \<^verbatim>\<open>get_news\<close> returns
  then), and one in which fetch and summary succeed.
\<close>

definition no_news_world :: world where
  "no_news_world =
     \<lparr>get_news = (\<lambda>topic. ''No news found for '' @ [sq] @ topic @ [sq] @ '' at the moment.''),
      summarize_with_ai = (\<lambda>news. ''digest''), escape_markdown = (\<lambda>s. s),
      CHANNEL_ID = [], CURRENT_TIMESTAMP = ''2024-05-01 10:00:00''\<rparr>"

definition headlines_world :: world where
  "headlines_world =
     \<lparr>get_news = (\<lambda>topic. ''Markets rally - Stocks rose on Monday''),
      summarize_with_ai = (\<lambda>news. ''digest''), escape_markdown = (\<lambda>s. s),
      CHANNEL_ID = [], CURRENT_TIMESTAMP = ''2024-05-01 10:00:00''\<rparr>"

section \<open>Lemmas about the matcher\<close>

subsection \<open>Patterns built from a keyword\<close>

lemma special_not_alnum: "c \<in> set special_chars \<Longrightarrow> \<not> is_alnum c"
  by (auto simp: special_chars_def is_alnum_def backslash_def ascii_lowercase_def
      ascii_uppercase_def ascii_digits_def)

lemma operator_special: "c \<in> set operator_chars \<Longrightarrow> c \<in> set special_chars"
  by (auto simp: special_chars_def operator_chars_def)

lemma backslash_special: "backslash \<in> set special_chars"
  by (simp add: special_chars_def)

lemma re_escape_Nil: "re_escape [] = []"
  by (simp add: re_escape_def)

lemma re_escape_Cons:
  "re_escape (c # k) = (if c \<in> set special_chars then [backslash, c] else [c]) @ re_escape k"
  by (simp add: re_escape_def)

lemma sre_parse_plain:
  "c \<noteq> backslash \<Longrightarrow> c \<notin> set operator_chars \<Longrightarrow>
   sre_parse (c # cs) = map_option ((#) (LITERAL c)) (sre_parse cs)"
  by (cases cs) simp_all

lemma sre_parse_escaped:
  "\<not> is_alnum d \<Longrightarrow> sre_parse (backslash # d # ds) = map_option ((#) (LITERAL d)) (sre_parse ds)"
  by (auto simp: is_alnum_def ascii_lowercase_def)

lemma sre_parse_escape:
  "sre_parse (re_escape k @ rest) = map_option ((@) (map LITERAL k)) (sre_parse rest)"
proof (induction k)
  case Nil
  show ?case by (simp add: re_escape_Nil option.map_ident)
next
  case (Cons c k)
  show ?case
  proof (cases "c \<in> set special_chars")
    case True
    then show ?thesis using Cons special_not_alnum[OF True]
      by (simp add: re_escape_Cons sre_parse_escaped option.map_comp comp_def del: sre_parse.simps)
  next
    case False
    then have nb: "c \<noteq> backslash" "c \<notin> set operator_chars"
      using backslash_special operator_special by auto
    show ?thesis using False Cons
      by (simp add: re_escape_Cons sre_parse_plain[OF nb] option.map_comp comp_def del: sre_parse.simps)
  qed
qed

lemma sre_parse_keyword_pattern:
  "sre_parse (keyword_pattern k) = Some (AT_BOUNDARY # map LITERAL k @ [AT_BOUNDARY])"
  unfolding keyword_pattern_def
  by (simp add: sre_parse_escape backslash_def)

subsection \<open>Searching for a keyword\<close>

lemma prev_of_snoc: "prev_of (pre @ [d]) = Some d"
  by (simp add: prev_of_def)

lemma word_before_prev_of:
  "word_before (prev_of pre) = (0 < length pre \<and> word_at (pre @ s) (length pre - 1))"
  by (cases pre rule: rev_cases) (simp_all add: prev_of_def word_before_def word_at_def nth_append)

lemma word_here_at: "word_here s = word_at (pre @ s) (length pre)"
  by (cases s) (simp_all add: word_here_def word_at_def)

lemma boundary_split:
  "(word_before (prev_of pre) \<noteq> word_here s) = boundary_at (pre @ s) (length pre)"
  unfolding boundary_at_def word_before_prev_of[of pre s] word_here_at[of s pre] by simp

lemma sre_match_literals:
  "sre_match (map LITERAL k @ its) (prev_of pre) s =
     (length k \<le> length s \<and> py_lower (take (length k) s) = py_lower k \<and>
      sre_match its (prev_of (pre @ take (length k) s)) (drop (length k) s))"
proof (induction k arbitrary: pre s)
  case Nil
  show ?case by (simp add: py_lower_def)
next
  case (Cons c k)
  show ?case
  proof (cases s)
    case Nil
    then show ?thesis by simp
  next
    case (Cons d s')
    have "sre_match (map LITERAL (c # k) @ its) (prev_of pre) (d # s') =
          (lower_char d = lower_char c \<and> sre_match (map LITERAL k @ its) (prev_of (pre @ [d])) s')"
      by (simp add: prev_of_snoc)
    also have "\<dots> = (lower_char d = lower_char c \<and> length k \<le> length s' \<and>
          py_lower (take (length k) s') = py_lower k \<and>
          sre_match its (prev_of ((pre @ [d]) @ take (length k) s')) (drop (length k) s'))"
      by (simp only: Cons.IH)
    finally show ?thesis using Cons by (auto simp: py_lower_def)
  qed
qed

lemma sre_search_ex:
  "sre_search its (prev_of pre) s =
     (\<exists>j\<le>length s. sre_match its (prev_of (pre @ take j s)) (drop j s))"
proof (induction s arbitrary: pre)
  case Nil
  show ?case by simp
next
  case (Cons d s)
  have "sre_search its (prev_of pre) (d # s) =
        (sre_match its (prev_of pre) (d # s) \<or> sre_search its (prev_of (pre @ [d])) s)"
    by (simp add: prev_of_snoc)
  also have "\<dots> = (sre_match its (prev_of pre) (d # s) \<or>
        (\<exists>j\<le>length s. sre_match its (prev_of ((pre @ [d]) @ take j s)) (drop j s)))"
    by (simp only: Cons.IH)
  also have "\<dots> = (\<exists>j\<le>length (d # s). sre_match its (prev_of (pre @ take j (d # s))) (drop j (d # s)))"
    (is "?L = ?R")
  proof
    assume ?L
    then show ?R
    proof
      assume "sre_match its (prev_of pre) (d # s)"
      then show ?R by (intro exI[of _ 0]) simp
    next
      assume "\<exists>j\<le>length s. sre_match its (prev_of ((pre @ [d]) @ take j s)) (drop j s)"
      then obtain j where "j \<le> length s" "sre_match its (prev_of ((pre @ [d]) @ take j s)) (drop j s)"
        by blast
      then show ?R by (intro exI[of _ "Suc j"]) simp
    qed
  next
    assume ?R
    then obtain j where j: "j \<le> length (d # s)"
      "sre_match its (prev_of (pre @ take j (d # s))) (drop j (d # s))" by blast
    show ?L
    proof (cases j)
      case 0
      with j show ?thesis by simp
    next
      case (Suc j')
      with j have "j' \<le> length s" "sre_match its (prev_of ((pre @ [d]) @ take j' s)) (drop j' s)"
        by simp_all
      then show ?thesis by blast
    qed
  qed
  finally show ?case .
qed

lemma sre_match_word:
  assumes "j \<le> length t"
  shows "sre_match (AT_BOUNDARY # map LITERAL k @ [AT_BOUNDARY]) (prev_of (take j t)) (drop j t) =
     (j + length k \<le> length t \<and> py_lower (take (length k) (drop j t)) = py_lower k \<and>
      boundary_at t j \<and> boundary_at t (j + length k))"
proof -
  have b1: "(word_before (prev_of (take j t)) \<noteq> word_here (drop j t)) = boundary_at t j"
    using boundary_split[of "take j t" "drop j t"] assms by simp
  have b2: "(word_before (prev_of (take j t @ take (length k) (drop j t))) \<noteq> word_here (drop (length k) (drop j t)))
      = boundary_at t (j + length k)" if le: "j + length k \<le> length t"
  proof -
    have e: "take j t @ take (length k) (drop j t) = take (j + length k) t"
      by (simp add: take_add)
    have d: "drop (length k) (drop j t) = drop (j + length k) t"
      by (simp add: add.commute)
    have l: "length (take (j + length k) t) = j + length k"
      using le by simp
    show ?thesis
      using boundary_split[of "take (j + length k) t" "drop (j + length k) t"]
      unfolding e d l append_take_drop_id .
  qed
  have m1: "sre_match (AT_BOUNDARY # map LITERAL k @ [AT_BOUNDARY]) (prev_of (take j t)) (drop j t) =
     (boundary_at t j \<and> sre_match (map LITERAL k @ [AT_BOUNDARY]) (prev_of (take j t)) (drop j t))"
    by (simp only: sre_match.simps b1)
  have m2: "sre_match (map LITERAL k @ [AT_BOUNDARY]) (prev_of (take j t)) (drop j t) =
     (length k \<le> length (drop j t) \<and> py_lower (take (length k) (drop j t)) = py_lower k \<and>
      sre_match [AT_BOUNDARY] (prev_of (take j t @ take (length k) (drop j t))) (drop (length k) (drop j t)))"
    by (rule sre_match_literals)
  have m3: "sre_match [AT_BOUNDARY] p s = (word_before p \<noteq> word_here s)" for p s
    by (simp only: sre_match.simps simp_thms)
  have le: "(length k \<le> length (drop j t)) = (j + length k \<le> length t)"
    using assms by auto
  have "sre_match (AT_BOUNDARY # map LITERAL k @ [AT_BOUNDARY]) (prev_of (take j t)) (drop j t) =
     (boundary_at t j \<and> j + length k \<le> length t \<and> py_lower (take (length k) (drop j t)) = py_lower k \<and>
      (word_before (prev_of (take j t @ take (length k) (drop j t))) \<noteq> word_here (drop (length k) (drop j t))))"
    unfolding m1 m2 m3 le ..
  then show ?thesis using assms b2 by auto
qed

lemma sre_search_word:
  "sre_search (AT_BOUNDARY # map LITERAL k @ [AT_BOUNDARY]) None t = occurs_as_whole_word k t"
proof -
  let ?its = "AT_BOUNDARY # map LITERAL k @ [AT_BOUNDARY]"
  have "sre_search ?its None t = sre_search ?its (prev_of []) t"
    by (simp add: prev_of_def)
  also have "\<dots> = (\<exists>j\<le>length t. sre_match ?its (prev_of (take j t)) (drop j t))"
    by (simp only: sre_search_ex append_Nil)
  also have "\<dots> = (\<exists>j\<le>length t. j + length k \<le> length t \<and>
      py_lower (take (length k) (drop j t)) = py_lower k \<and> boundary_at t j \<and> boundary_at t (j + length k))"
    using sre_match_word by blast
  also have "\<dots> = (\<exists>j. j < Suc (length t) - length k \<and>
      py_lower (take (length k) (drop j t)) = py_lower k \<and> boundary_at t j \<and> boundary_at t (j + length k))"
  proof -
    have "(j \<le> length t \<and> j + length k \<le> length t) = (j < Suc (length t) - length k)" for j
      by arith
    then show ?thesis by (metis (no_types, lifting))
  qed
  also have "\<dots> = occurs_as_whole_word k t"
    unfolding occurs_as_whole_word_def list_ex_iff by auto
  finally show ?thesis .
qed

lemma re_search_keyword:
  "re_search (keyword_pattern k) t = Some (occurs_as_whole_word k t)"
  by (simp add: re_search_def sre_parse_keyword_pattern sre_search_word del: sre_search.simps sre_match.simps)

subsection \<open>The loop of the matcher\<close>

lemma notify_scan_Cons:
  "notify_scan ((c, k) # rows) news seen =
     (if occurs_as_whole_word k news \<and> c \<notin> seen
      then (case notify_scan rows news (insert c seen) of
              Inl e \<Rightarrow> Inl e | Inr sent \<Rightarrow> Inr ((c, k) # sent))
      else notify_scan rows news seen)"
  by (simp add: re_search_keyword)

lemma notify_scan_total: "\<exists>sent. notify_scan rows news seen = Inr sent"
proof (induction rows arbitrary: seen)
  case Nil
  show ?case by simp
next
  case (Cons r rows)
  obtain c k where r: "r = (c, k)" by (cases r)
  from Cons[of seen] Cons[of "insert c seen"] show ?case
    unfolding r notify_scan_Cons by auto
qed



subsection \<open>Distinct rows\<close>

lemma set_sql_distinct: "set (sql_distinct xs) = set xs"
  by (induction xs rule: sql_distinct.induct) auto



lemma sql_distinct_snoc: "x \<in> set xs \<Longrightarrow> sql_distinct (xs @ [x]) = sql_distinct xs"
  by (induction xs rule: sql_distinct.induct) auto




lemma notify_alerts_sent:
  "\<exists>sent. notify_scan (sql_distinct (subscriptions db)) news {} = Inr sent \<and>
          notify_alerts db news = Inr (map alert_message sent)"
  using notify_scan_total[of "sql_distinct (subscriptions db)" news "{}"]
  by (auto simp: notify_alerts_def)

section \<open>The claims about the matcher\<close>











lemma subscriptions_insert_alert:
  "subscriptions (insert_alert db c k) = subscriptions db @ [(c, k)]"
  by (simp add: subscriptions_def insert_alert_def)

lemma notify_alerts_insert_duplicate:
  "(c, k) \<in> set (subscriptions db) \<Longrightarrow> notify_alerts (insert_alert db c k) news = notify_alerts db news"
  by (simp add: notify_alerts_def subscriptions_insert_alert sql_distinct_snoc)

text \<open>
  Claim C10. The matcher reads the distinct rows of the subscription table only:
  subscribing to the same keyword twice gives the same notifications as subscribing
  once, adding a row that is already there changes no notification, and two stores
  with the same distinct rows notify alike.
\<close>

theorem duplicate_subscription_same_notifications:
  "notify_alerts (fst (alert_command (fst (alert_command db chat_id args)) chat_id args)) news =
   notify_alerts (fst (alert_command db chat_id args)) news \<and>
   ((c, k) \<in> set (subscriptions db) \<longrightarrow>
      notify_alerts (insert_alert db c k) news = notify_alerts db news) \<and>
   (sql_distinct (subscriptions db) = sql_distinct (subscriptions db') \<longrightarrow>
      notify_alerts db news = notify_alerts db' news)"
proof (intro conjI impI)
  show "notify_alerts (fst (alert_command (fst (alert_command db chat_id args)) chat_id args)) news =
        notify_alerts (fst (alert_command db chat_id args)) news"
  proof (cases "args = []")
    case True
    then show ?thesis by (simp add: alert_command_def)
  next
    case False
    let ?k = "py_lower (py_strip (py_join '' '' args))"
    have "(str_int chat_id, ?k) \<in> set (subscriptions (insert_alert db (str_int chat_id) ?k))"
      by (simp add: subscriptions_insert_alert)
    from notify_alerts_insert_duplicate[OF this] False show ?thesis
      by (simp add: alert_command_def Let_def)
  qed
next
  assume "(c, k) \<in> set (subscriptions db)"
  then show "notify_alerts (insert_alert db c k) news = notify_alerts db news"
    by (rule notify_alerts_insert_duplicate)
next
  assume "sql_distinct (subscriptions db) = sql_distinct (subscriptions db')"
  then show "notify_alerts db news = notify_alerts db' news"
    by (simp add: notify_alerts_def)
qed

theorem duplicate_subscription_same_notifications_witness:
  "(''7'', ''ai'') \<in> set (subscriptions one_alert) \<and>
   subscriptions (fst (alert_command one_alert 7 [''AI''])) = [(''7'', ''ai''), (''7'', ''ai'')] \<and>
   notify_alerts (fst (alert_command one_alert 7 [''AI''])) ''AI is transforming airlines'' =
     Inr [alert_message (''7'', ''ai'')] \<and>
   notify_alerts one_alert ''AI is transforming airlines'' = Inr [alert_message (''7'', ''ai'')] \<and>
   notify_alerts (insert_alert one_alert ''7'' ''ai'') ''AI is transforming airlines'' =
     Inr [alert_message (''7'', ''ai'')] \<and>
   sql_distinct (subscriptions (insert_alert one_alert ''7'' ''ai'')) = sql_distinct (subscriptions one_alert)"
proof -
  let ?t = "''AI is transforming airlines''"
  have m: "(''7'', ''ai'') \<in> set (subscriptions one_alert)"
    by code_simp
  have s: "subscriptions (fst (alert_command one_alert 7 [''AI''])) = [(''7'', ''ai''), (''7'', ''ai'')]"
    by code_simp
  have n: "notify_alerts one_alert ?t = Inr [alert_message (''7'', ''ai'')]"
    by code_simp
  have "notify_alerts (fst (alert_command (fst (alert_command init_db 7 [''AI''])) 7 [''AI''])) ?t =
        notify_alerts (fst (alert_command init_db 7 [''AI''])) ?t"
    using duplicate_subscription_same_notifications[of init_db 7 "[''AI'']" ?t]
    by blast
  then have twice: "notify_alerts (fst (alert_command one_alert 7 [''AI''])) ?t =
        Inr [alert_message (''7'', ''ai'')]"
    using n by (simp add: one_alert_def)
  have "notify_alerts (insert_alert one_alert ''7'' ''ai'') ?t = notify_alerts one_alert ?t"
    using duplicate_subscription_same_notifications[of one_alert 7 "[''AI'']" ?t "''7''" "''ai''"] m
    by blast
  then have ins: "notify_alerts (insert_alert one_alert ''7'' ''ai'') ?t = Inr [alert_message (''7'', ''ai'')]"
    using n by simp
  have d: "sql_distinct (subscriptions (insert_alert one_alert ''7'' ''ai'')) = sql_distinct (subscriptions one_alert)"
    by code_simp
  have "notify_alerts (insert_alert one_alert ''7'' ''ai'') ?t = notify_alerts one_alert ?t"
    using duplicate_subscription_same_notifications[of "insert_alert one_alert ''7'' ''ai''" 7
        "[''AI'']" ?t "''7''" "''ai''" one_alert] d
    by blast
  show ?thesis by (intro conjI m s twice n ins d)
qed

section \<open>Lemmas about the queries\<close>






lemma distinct_order_by_desc: "distinct (order_by_desc f xs) = distinct xs"
  by (simp add: order_by_desc_def)


lemma sql_limit_take: "0 \<le> n \<Longrightarrow> sql_limit n rows = take (nat n) rows"
  by (simp add: sql_limit_def)







lemma ids_ascending_log:
  "ids_ascending db \<Longrightarrow> ids_ascending (log_interaction db now c t n s)"
  by (auto simp: ids_ascending_def log_interaction_def sorted_wrt_append list_all_iff)



lemma same_second_recent: "map i_id (select_recent same_second ''42'' 2) = [1, 2]"
  by code_simp















section \<open>Lemmas about the subscription registry\<close>

lemma sql_delete_eq:
  "sql_delete p rows = (filter (\<lambda>r. \<not> p r) rows, length (filter p rows))"
  by (induction rows) (simp_all add: Let_def)

lemma delete_alerts_eq:
  "delete_alerts db c k =
     (db\<lparr>alerts := filter (\<lambda>a. \<not> alert_matches c k a) (alerts db)\<rparr>,
      length (filter (alert_matches c k) (alerts db)))"
  by (simp add: delete_alerts_def sql_delete_eq alert_matches_def[abs_def])




section \<open>Lemmas about the discover view\<close>

lemma set_distinct_topics:
  "set (distinct_topics db c) = i_input_topic ` set (chat_rows db c)"
  by (simp add: distinct_topics_def set_sql_distinct)

lemma sort_key_empty: "(sort_key f xs = []) = (xs = [])"
  by (metis length_0_conv length_sort)

lemma group_count_empty: "(group_count ts = []) = (ts = [])"
  by (simp add: group_count_def sort_key_empty)

lemma order_by_desc_empty: "(order_by_desc f xs = []) = (xs = [])"
  by (simp add: order_by_desc_def sort_key_empty)

lemma select_topic_frequency_empty:
  "(select_topic_frequency rows 10 = []) = (rows = [])"
  by (simp add: select_topic_frequency_def sql_limit_def order_by_desc_empty group_count_empty)

lemma finite_trending: "finite (set (map fst (global_topic_frequency db 10)) - set (distinct_topics db c))"
  by simp

text \<open>
  Claim C8, amended. Whatever order Python lists a set in, the topics that Discover
  lists are the set difference between the topics of the global top ten and the topics
  of the chat; the list is empty exactly when the chat has explored every global top
  topic, and the reply is then the one also sent when the store holds no interaction at
  all. A chat without history is shown every global top topic: it gets that reply only
  when the store is empty.
\<close>

theorem discover_is_set_difference:
  assumes "\<And>S. finite S \<Longrightarrow> set (list_of S) = S"
  shows "set (discover_unexplored list_of db c) =
           set (map fst (global_topic_frequency db 10)) - set (distinct_topics db c) \<and>
         (discover_unexplored list_of db c = []) =
           (set (map fst (global_topic_frequency db 10)) \<subseteq> set (distinct_topics db c)) \<and>
         (set (map fst (global_topic_frequency db 10)) \<subseteq> set (distinct_topics db (str_int chat_id)) \<longrightarrow>
            discover_command list_of db chat_id = [send_message (str_int chat_id) explored_all_text]) \<and>
         (interactions db = [] \<longrightarrow>
            discover_command list_of db chat_id = [send_message (str_int chat_id) explored_all_text]) \<and>
         (chat_rows db c = [] \<longrightarrow>
            set (discover_unexplored list_of db c) = set (map fst (global_topic_frequency db 10)) \<and>
            (discover_unexplored list_of db c = []) = (interactions db = []))"
proof -
  let ?T = "set (map fst (global_topic_frequency db 10))"
  have diff: "set (discover_unexplored list_of db c') = ?T - set (distinct_topics db c')" for c'
    unfolding discover_unexplored_def Let_def
    by (rule assms) simp
  have empty: "(discover_unexplored list_of db c' = []) = (?T \<subseteq> set (distinct_topics db c'))" for c'
  proof -
    have "(discover_unexplored list_of db c' = []) = (set (discover_unexplored list_of db c') = {})"
      by simp
    also have "\<dots> = (?T \<subseteq> set (distinct_topics db c'))"
      unfolding diff by (simp only: Diff_eq_empty_iff)
    finally show ?thesis .
  qed
  have explored: "discover_command list_of db chat_id = [send_message (str_int chat_id) explored_all_text]"
    if "?T \<subseteq> set (distinct_topics db (str_int chat_id))"
  proof -
    have "discover_unexplored list_of db (str_int chat_id) = []"
      using that by (simp only: empty)
    then show ?thesis by (simp add: discover_command_def discover_text_def)
  qed
  have no_data: "discover_command list_of db chat_id = [send_message (str_int chat_id) explored_all_text]"
    if "interactions db = []"
  proof -
    have "global_topic_frequency db 10 = []"
      using that by (simp add: global_topic_frequency_def select_topic_frequency_empty)
    then have "?T \<subseteq> set (distinct_topics db (str_int chat_id))" by simp
    then show ?thesis by (rule explored)
  qed
  have fresh: "set (discover_unexplored list_of db c) = ?T \<and>
            (discover_unexplored list_of db c = []) = (interactions db = [])"
    if "chat_rows db c = []"
  proof -
    have p: "set (distinct_topics db c) = {}"
      using that by (simp add: set_distinct_topics)
    have "(?T \<subseteq> {}) = (global_topic_frequency db 10 = [])" by simp
    also have "\<dots> = (interactions db = [])"
      by (simp add: global_topic_frequency_def select_topic_frequency_empty)
    finally show ?thesis using p by (simp add: diff empty)
  qed
  show ?thesis
  proof (intro conjI impI)
    show "set (discover_unexplored list_of db c) = ?T - set (distinct_topics db c)"
      by (rule diff)
    show "(discover_unexplored list_of db c = []) = (?T \<subseteq> set (distinct_topics db c))"
      by (rule empty)
  next
    assume "?T \<subseteq> set (distinct_topics db (str_int chat_id))"
    then show "discover_command list_of db chat_id = [send_message (str_int chat_id) explored_all_text]"
      by (rule explored)
  next
    assume "interactions db = []"
    then show "discover_command list_of db chat_id = [send_message (str_int chat_id) explored_all_text]"
      by (rule no_data)
  next
    assume e: "chat_rows db c = []"
    show "set (discover_unexplored list_of db c) = ?T"
      using fresh[OF e] by (rule conjunct1)
    show "(discover_unexplored list_of db c = []) = (interactions db = [])"
      using fresh[OF e] by (rule conjunct2)
  qed
qed

lemma one_topic_trending: "map fst (global_topic_frequency one_topic 10) = [''ai'']"
  by code_simp

lemma one_topic_personal_1: "distinct_topics one_topic ''1'' = [''ai'']"
  by code_simp

lemma one_topic_personal_2: "chat_rows one_topic ''2'' = []"
  by code_simp

lemma str_int_1: "str_int 1 = ''1''" by code_simp
lemma str_int_2: "str_int 2 = ''2''" by code_simp

lemma one_topic_unexplored_2: "discover_unexplored sorted_list_of_set one_topic ''2'' = [''ai'']"
  unfolding discover_unexplored_def Let_def one_topic_trending
  using one_topic_personal_2 by (simp add: distinct_topics_def)

lemma discover_text_ai: "discover_text [''ai''] \<noteq> explored_all_text"
  by code_simp

text \<open>
  One record in the store: the chat that asked for it has explored every top topic and
  gets the reply for an empty result; a chat without history does not.
\<close>

theorem discover_zero_history_counterexample:
  "chat_rows one_topic (str_int 2) = [] \<and>
   set (map fst (global_topic_frequency one_topic 10)) \<subseteq> set (distinct_topics one_topic (str_int 1)) \<and>
   map m_text (discover_command sorted_list_of_set one_topic 1) = [explored_all_text] \<and>
   map m_text (discover_command sorted_list_of_set one_topic 2) \<noteq> [explored_all_text]"
proof -
  have u1: "discover_unexplored sorted_list_of_set one_topic ''1'' = []"
    unfolding discover_unexplored_def Let_def one_topic_trending one_topic_personal_1 by simp
  show ?thesis
    unfolding str_int_1 str_int_2 discover_command_def u1 one_topic_unexplored_2
    using discover_text_ai
    by (simp add: one_topic_personal_2 one_topic_trending one_topic_personal_1 discover_text_def send_message_def)
qed

theorem discover_is_set_difference_witness:
  "set (discover_unexplored sorted_list_of_set one_topic ''2'') = {''ai''} \<and>
   discover_unexplored sorted_list_of_set one_topic ''1'' = [] \<and>
   discover_command sorted_list_of_set init_db 2 = [send_message ''2'' explored_all_text]"
proof -
  have h: "finite S \<Longrightarrow> set (sorted_list_of_set S) = S" for S :: "string set"
    by simp
  note t = discover_is_set_difference[of sorted_list_of_set, OF h]
  have a: "set (discover_unexplored sorted_list_of_set one_topic ''2'') = {''ai''}"
    using t[of one_topic "''2''" 2] one_topic_personal_2 one_topic_trending
    by (simp add: set_distinct_topics)
  have "set (map fst (global_topic_frequency one_topic 10)) \<subseteq> set (distinct_topics one_topic ''1'')"
    by (simp add: one_topic_trending one_topic_personal_1)
  then have b: "discover_unexplored sorted_list_of_set one_topic ''1'' = []"
    using t[of one_topic "''1''" 1] by blast
  have "interactions init_db = []" by (simp add: init_db_def)
  then have "discover_command sorted_list_of_set init_db 2 = [send_message (str_int 2) explored_all_text]"
    using t[of init_db "''2''" 2] by blast
  then have c: "discover_command sorted_list_of_set init_db 2 = [send_message ''2'' explored_all_text]"
    by (simp add: str_int_2)
  from a b c show ?thesis by blast
qed

section \<open>Lemmas and evaluations of the news handler\<close>

lemma news_command_fetch_failed:
  assumes "news_data = get_news w (news_input_topic args)"
    and "startswith news_data ''Error:'' \<or> startswith news_data ''No news''"
  shows "\<exists>alerted. notify_alerts db news_data = Inr alerted \<and>
           news_command w db chat_id args =
             Inr (db, searching_message (str_int chat_id) (news_display_topic (news_input_topic args)) #
                      alerted @ [send_message (str_int chat_id) news_data])"
proof -
  obtain sent where "notify_alerts db news_data = Inr (map alert_message sent)"
    using notify_alerts_sent by blast
  then show ?thesis
    using assms by (simp add: news_command_def Let_def)
qed

lemma lower_char_idem: "lower_char (lower_char c) = lower_char c"
  by (auto simp: lower_char_def ascii_uppercase_def ascii_lowercase_def)

lemma set_py_strip: "set (py_strip s) \<subseteq> set s"
proof -
  have "set (py_strip s) \<subseteq> set (dropWhile is_space s)"
    unfolding py_strip_def using set_dropWhileD[of _ is_space "rev (dropWhile is_space s)"] by auto
  also have "\<dots> \<subseteq> set s"
    using set_dropWhileD[of _ is_space s] by auto
  finally show ?thesis .
qed

lemma stored_topic_lower:
  "py_strip (py_lower (py_join '' '' args)) \<noteq> [] \<Longrightarrow>
   py_lower (news_input_topic args) = news_input_topic args"
proof -
  let ?j = "py_strip (py_lower (py_join '' '' args))"
  assume ne: "?j \<noteq> []"
  have "lower_char c = c" if "c \<in> set ?j" for c
  proof -
    from that set_py_strip have "c \<in> set (py_lower (py_join '' '' args))" by blast
    then show ?thesis by (auto simp: py_lower_def lower_char_idem)
  qed
  then have "py_lower ?j = ?j"
    unfolding py_lower_def by (simp add: map_idI)
  with ne show ?thesis by (simp add: news_input_topic_def Let_def)
qed

text \<open>
  Claim C1, at an input where the code departs from it. A chat subscribed to
  \<open>cricket\<close>; another chat asks for news on cricket and the fetch answers that it
  found none. The store stays as it was and the answer is forwarded word for word, but
  the matcher has run on the answer and the subscriber is sent an alert.
\<close>

theorem news_command_alerts_on_failed_fetch:
  "startswith (get_news no_news_world ''cricket'') ''No news'' \<and>
   news_command no_news_world cricket_alert 5 [''cricket''] =
     Inr (cricket_alert,
          [searching_message ''5'' ''Cricket'',
           alert_message (''7'', ''cricket''),
           send_message ''5'' (get_news no_news_world ''cricket'')])"
  by code_simp

text \<open>
  Claim C5, at an input where the code departs from it. A request without a topic, in
  a world where fetch and summary succeed, stores the topic \<open>India\<close>, which is not
  its own lower-casing.
\<close>

theorem news_command_default_topic_not_lower:
  "news_input_topic [] = ''India'' \<and>
   py_lower ''India'' = ''india'' \<and>
   (\<exists>db msgs. news_command headlines_world init_db 5 [] = Inr (db, msgs) \<and>
       map i_input_topic (interactions db) = [''India''])"
proof (intro conjI)
  show "news_input_topic [] = ''India''" by code_simp
  show "py_lower ''India'' = ''india''" by code_simp
  have "map_sum id (\<lambda>r. map i_input_topic (interactions (fst r)))
          (news_command headlines_world init_db 5 []) = Inr [''India'']"
    by code_simp
  then show "\<exists>db msgs. news_command headlines_world init_db 5 [] = Inr (db, msgs) \<and>
       map i_input_topic (interactions db) = [''India'']"
    by (cases "news_command headlines_world init_db 5 []") auto
qed

section \<open>Lemmas and evaluations of the history handler\<close>

lemma digit_value_nonneg: "0 \<le> digit_value c"
  by (auto simp: digit_value_def ascii_digits_def split: option.splits if_splits)

lemma py_int_nonneg_aux: "0 \<le> a \<Longrightarrow> 0 \<le> foldl (\<lambda>a c. 10 * a + digit_value c) a s"
  by (induction s arbitrary: a) (simp_all add: digit_value_nonneg)

lemma history_limit_nonneg: "0 \<le> history_limit args"
  by (auto simp: history_limit_def py_int_def py_int_nonneg_aux split: list.splits)

lemma history_limit_default:
  "history_limit [] = 3" "\<not> py_isdigit a \<Longrightarrow> history_limit (a # rest) = 3"
  by (simp_all add: history_limit_def)

lemma history_limit_negative: "history_limit [''-5''] = 3"
  by code_simp

text \<open>
  Claim C7, at an input where the code departs from it. The argument \<open>0\<close> is all
  digits, so it is taken as the limit; the query then returns no row, and a chat that has
  history is told that it has none.
\<close>

theorem history_limit_zero:
  "history_limit [''0''] = 0 \<and>
   chat_rows one_topic (str_int 1) \<noteq> [] \<and>
   history_command one_topic 1 [''0''] =
     Inr [send_message ''1'' ''No history found yet. Try /news <topic>!'']"
  by code_simp

section \<open>Further facts\<close>

text \<open>
  A keyword that ends in a character outside \<^verbatim>\<open>\w\<close> has a word boundary after it
  only where a word character follows: the matcher does not find \<open>c++\<close> before a
  space, and finds it before a letter. Whole-word occurrence says the same.
\<close>

lemma keyword_with_non_word_edge:
  "re_search (keyword_pattern ''c++'') ''learn c++ today'' = Some False \<and>
   \<not> occurs_as_whole_word ''c++'' ''learn c++ today'' \<and>
   re_search (keyword_pattern ''c++'') ''the c++x file'' = Some True \<and>
   occurs_as_whole_word ''c++'' ''the c++x file''"
  by code_simp

text \<open>
  Every handler keeps the keys of the interaction table ascending, so every store the
  bot reaches from an empty file has them so.
\<close>

lemma ids_ascending_cong:
  "interactions db' = interactions db \<Longrightarrow> interactions_seq db' = interactions_seq db \<Longrightarrow>
   ids_ascending db' = ids_ascending db"
  by (simp add: ids_ascending_def)

lemma ids_ascending_alert_command:
  "ids_ascending (fst (alert_command db chat_id args)) = ids_ascending db"
  by (rule ids_ascending_cong) (simp_all add: alert_command_def insert_alert_def Let_def)

lemma ids_ascending_removealert_command:
  "ids_ascending (fst (removealert_command db chat_id args)) = ids_ascending db"
  by (rule ids_ascending_cong)
     (simp_all add: removealert_command_def delete_alerts_eq Let_def split: prod.splits)

lemma ids_ascending_news_command:
  assumes "news_command w db chat_id args = Inr (db', msgs)" and "ids_ascending db"
  shows "ids_ascending db'"
proof -
  have "db' = db \<or> (\<exists>now t n s. db' = log_interaction db now chat_id t n s)"
    using assms(1)
    by (auto simp: news_command_def Let_def split: sum.splits if_splits)
  then show ?thesis
    using assms(2) ids_ascending_log by auto
qed


end
